theory Spec2Isabelle
  imports Main "HOL-Library.Word" "HOL-Library.Finite_Map"
begin

section \<open>gRPC status codes and Go errors\<close>

text \<open>
  The codes of \<^verbatim>\<open>google.golang.org/grpc/codes\<close>. A Go \<^verbatim>\<open>error\<close> is either an
  error that carries a gRPC status (\<^verbatim>\<open>status.Error(code, msg)\<close>), a plain error
  (\<^verbatim>\<open>errors.New\<close>, \<^verbatim>\<open>ctx.Err()\<close>), or an error wrapped by
  \<^verbatim>\<open>fmt.Errorf("...: %w", err)\<close>. The nil error is \<open>None\<close> of \<open>error option\<close>.
\<close>

datatype code =
  OK | Canceled | Unknown | InvalidArgument | DeadlineExceeded | NotFound
  | AlreadyExists | PermissionDenied | ResourceExhausted | FailedPrecondition
  | Aborted | OutOfRange | Unimplemented | Internal | Unavailable | DataLoss
  | Unauthenticated

datatype error =
  Status code string
  | Plain string
  | Wrapped string error

text \<open>
  \<^verbatim>\<open>status.FromError(err)\<close> for a non-nil error: the status code and the flag
  \<^verbatim>\<open>ok\<close>. An error that wraps an error with a gRPC status has that status' code; an
  error without any gRPC status yields code \<open>Unknown\<close> and \<open>ok = false\<close>.
\<close>

fun FromError :: "error \<Rightarrow> code \<times> bool" where
  "FromError (Status c msg) = (c, True)"
| "FromError (Plain msg) = (Unknown, False)"
| "FromError (Wrapped msg e) = FromError e"

text \<open>
  The loop \<^verbatim>\<open>for _, code := range codes { if st.Code() == code { retryable = true; break } }\<close>
  of both interceptors.
\<close>

fun retryable_loop :: "code list \<Rightarrow> code \<Rightarrow> bool" where
  "retryable_loop [] c = False"
| "retryable_loop (x # xs) c = (if c = x then True else retryable_loop xs c)"

section \<open>Time\<close>

text \<open>
  A \<^verbatim>\<open>time.Time\<close> is an instant in nanoseconds, the zero \<^verbatim>\<open>time.Time\<close> being 0; a
  \<^verbatim>\<open>time.Duration\<close> is a signed 64-bit count of nanoseconds. \<^verbatim>\<open>time.Since(t)\<close> is
  \<^verbatim>\<open>time.Now().Sub(t)\<close>, which saturates at the largest and smallest duration.
  The clock reading \<open>now\<close> is a parameter of every function that reads the clock.
\<close>

type_synonym go_int = "64 word"
type_synonym Duration = "64 word"
type_synonym Time = int

definition time_Since :: "Time \<Rightarrow> Time \<Rightarrow> int" where
  "time_Since now t = max (- (2 ^ 63)) (min (2 ^ 63 - 1) (now - t))"

section \<open>The circuit breaker\<close>

datatype CircuitBreakerState = StateClosed | StateOpen | StateHalfOpen

text \<open>The integer value of the \<^verbatim>\<open>iota\<close> constants.\<close>

fun state_int :: "CircuitBreakerState \<Rightarrow> int" where
  "state_int StateClosed = 0"
| "state_int StateOpen = 1"
| "state_int StateHalfOpen = 2"

record CircuitBreakerConfig =
  FailureThreshold :: go_int
  SuccessThreshold :: go_int
  Timeout :: Duration
  RetryableCodes :: "code list"

definition DefaultCircuitBreakerConfig :: CircuitBreakerConfig where
  "DefaultCircuitBreakerConfig =
     \<lparr> FailureThreshold = 5, SuccessThreshold = 2, Timeout = 30 * 1000000000,
       RetryableCodes = [Unavailable, DeadlineExceeded, ResourceExhausted] \<rparr>"

record CircuitBreaker =
  state :: CircuitBreakerState
  failures :: go_int
  successes :: go_int
  lastFailure :: Time
  config :: CircuitBreakerConfig

text \<open>A nil configuration is \<open>None\<close>.\<close>

definition NewCircuitBreaker :: "CircuitBreakerConfig option \<Rightarrow> CircuitBreaker" where
  "NewCircuitBreaker cfg =
     \<lparr> state = StateClosed, failures = 0, successes = 0, lastFailure = 0,
       config = (case cfg of None \<Rightarrow> DefaultCircuitBreakerConfig | Some c \<Rightarrow> c) \<rparr>"

text \<open>
  \<^verbatim>\<open>CircuitBreaker.Call\<close>, first part (up to the call of the invoker): an open breaker
  rejects the call while \<^verbatim>\<open>time.Since(lastFailure) < Timeout\<close> and otherwise becomes
  half-open with \<^verbatim>\<open>successes = 0\<close>. \<open>Inl\<close> is the early return.
\<close>

definition Call_gate :: "Time \<Rightarrow> CircuitBreaker \<Rightarrow> error + CircuitBreaker" where
  "Call_gate now cb =
     (if state cb = StateOpen then
        (if time_Since now (lastFailure cb) < sint (Timeout (config cb))
         then Inl (Status Unavailable ''circuit breaker is open'')
         else Inr (if state cb = StateOpen
                   then cb\<lparr>state := StateHalfOpen, successes := 0\<rparr>
                   else cb))
      else Inr cb)"

text \<open>
  \<^verbatim>\<open>CircuitBreaker.Call\<close>, second part (after the invoker has returned \<open>err\<close>); \<open>now\<close> is
  the reading of \<^verbatim>\<open>time.Now()\<close> that stamps a failure.
\<close>

definition Call_record :: "Time \<Rightarrow> error option \<Rightarrow> CircuitBreaker \<Rightarrow> CircuitBreaker" where
  "Call_record now err cb =
     (case err of
        Some e \<Rightarrow>
          (if retryable_loop (RetryableCodes (config cb)) (fst (FromError e)) then
             (let cb1 = cb\<lparr>failures := failures cb + 1, lastFailure := now\<rparr> in
              if state cb1 = StateHalfOpen then cb1\<lparr>state := StateOpen, failures := 0\<rparr>
              else if FailureThreshold (config cb1) \<le>s failures cb1 then cb1\<lparr>state := StateOpen\<rparr>
              else cb1)
           else cb)
      | None \<Rightarrow>
          (let cb1 = cb\<lparr>failures := 0\<rparr> in
           if state cb1 = StateHalfOpen then
             (let cb2 = cb1\<lparr>successes := successes cb1 + 1\<rparr> in
              if SuccessThreshold (config cb2) \<le>s successes cb2 then cb2\<lparr>state := StateClosed\<rparr>
              else cb2)
           else cb1))"

text \<open>
  \<^verbatim>\<open>CircuitBreaker.Call\<close>. The downstream invoker is a state transformer on the world
  \<open>'w\<close> that returns the call's error; \<open>t0\<close> and \<open>t1\<close> are the clock readings of
  \<^verbatim>\<open>time.Since\<close> and \<^verbatim>\<open>time.Now\<close>. The result is the returned error, the breaker and
  the world afterwards.
\<close>

type_synonym 'w invoker = "'w \<Rightarrow> error option \<times> 'w"

definition Call ::
  "Time \<Rightarrow> Time \<Rightarrow> 'w invoker \<Rightarrow> CircuitBreaker \<Rightarrow> 'w \<Rightarrow> error option \<times> CircuitBreaker \<times> 'w" where
  "Call t0 t1 invoker cb w =
     (case Call_gate t0 cb of
        Inl e \<Rightarrow> (Some e, cb, w)
      | Inr cb' \<Rightarrow>
          (case invoker w of (err, w') \<Rightarrow> (err, Call_record t1 err cb', w')))"

text \<open>
  A sequence of calls on one breaker, as a test drives it: each step gives the two clock
  readings and the invoker of that call. The results of the calls are collected in order.
\<close>

fun Calls ::
  "(Time \<times> Time \<times> 'w invoker) list \<Rightarrow> CircuitBreaker \<Rightarrow> 'w
     \<Rightarrow> error option list \<times> CircuitBreaker \<times> 'w" where
  "Calls [] cb w = ([], cb, w)"
| "Calls (c # cs) cb w =
     (case c of (t0, t1, invoker) \<Rightarrow>
        (case Call t0 t1 invoker cb w of (err, cb', w') \<Rightarrow>
           (case Calls cs cb' w' of (errs, cb'', w'') \<Rightarrow> (err # errs, cb'', w''))))"

section \<open>Metrics\<close>

text \<open>
  The gauges and counters of \<^verbatim>\<open>metrics.Metrics\<close> that the modelled code writes, keyed by
  their label values. A nil \<^verbatim>\<open>*metrics.Metrics\<close> is \<open>None\<close>.
\<close>

record Metrics =
  grpcConnectionsActive :: "string \<rightharpoonup> int"
  grpcConnectionState :: "string \<times> string \<rightharpoonup> int"
  grpcRetriesTotal :: "string \<times> string \<Rightarrow> nat"
  grpcCircuitBreakerState :: "string \<times> string \<rightharpoonup> int"

definition UpdateGRPCConnections :: "string \<Rightarrow> int \<Rightarrow> Metrics \<Rightarrow> Metrics" where
  "UpdateGRPCConnections service count m =
     m\<lparr>grpcConnectionsActive := (grpcConnectionsActive m)(service \<mapsto> count)\<rparr>"

definition UpdateGRPCConnectionState :: "string \<Rightarrow> string \<Rightarrow> Metrics \<Rightarrow> Metrics" where
  "UpdateGRPCConnectionState service st m =
     m\<lparr>grpcConnectionState :=
         (grpcConnectionState m)
           ((service, ''Idle'') \<mapsto> 0, (service, ''Connecting'') \<mapsto> 0,
            (service, ''Ready'') \<mapsto> 0, (service, ''TransientFailure'') \<mapsto> 0,
            (service, ''Shutdown'') \<mapsto> 0, (service, st) \<mapsto> 1)\<rparr>"

definition IncrementGRPCRetry :: "string \<Rightarrow> string \<Rightarrow> Metrics \<Rightarrow> Metrics" where
  "IncrementGRPCRetry service methodName m =
     m\<lparr>grpcRetriesTotal :=
         (grpcRetriesTotal m)((service, methodName) := Suc (grpcRetriesTotal m (service, methodName)))\<rparr>"

definition UpdateGRPCCircuitBreaker :: "string \<Rightarrow> string \<Rightarrow> int \<Rightarrow> Metrics \<Rightarrow> Metrics" where
  "UpdateGRPCCircuitBreaker service methodName st m =
     m\<lparr>grpcCircuitBreakerState := (grpcCircuitBreakerState m)((service, methodName) \<mapsto> st)\<rparr>"

section \<open>The circuit-breaker interceptor\<close>

text \<open>
  The closure \<^verbatim>\<open>getBreaker\<close>: the breaker of a method, created on first use. The second
  lookup is the re-check under the write lock.
\<close>

definition getBreaker ::
  "CircuitBreakerConfig option \<Rightarrow> string \<Rightarrow> (string \<rightharpoonup> CircuitBreaker)
     \<Rightarrow> CircuitBreaker \<times> (string \<rightharpoonup> CircuitBreaker)" where
  "getBreaker cfg methodName breakers =
     (case breakers methodName of
        Some breaker \<Rightarrow> (breaker, breakers)
      | None \<Rightarrow>
          (case breakers methodName of
             Some breaker \<Rightarrow> (breaker, breakers)
           | None \<Rightarrow>
               (let breaker = NewCircuitBreaker cfg
                in (breaker, breakers(methodName \<mapsto> breaker)))))"

text \<open>
  The interceptor returned by \<^verbatim>\<open>CircuitBreakerInterceptor(serviceName, cfg, m)\<close>. Its state
  is the map of breakers (the breakers are updated in place in the source, here the map
  is written back), the metrics and the world. \<open>reply\<close> is the caller's reply value, a
  nil \<^verbatim>\<open>interface{}\<close> being \<open>None\<close>.
\<close>

definition CircuitBreakerInterceptor ::
  "string \<Rightarrow> CircuitBreakerConfig option \<Rightarrow> Time \<Rightarrow> Time \<Rightarrow> string \<Rightarrow> 'r option \<Rightarrow> 'w invoker
     \<Rightarrow> (string \<rightharpoonup> CircuitBreaker) \<times> Metrics option \<times> 'w
     \<Rightarrow> error option \<times> (string \<rightharpoonup> CircuitBreaker) \<times> Metrics option \<times> 'w" where
  "CircuitBreakerInterceptor serviceName cfg t0 t1 methodName reply invoker s =
     (case s of (breakers, m, w) \<Rightarrow>
        (case getBreaker cfg methodName breakers of (breaker, breakers1) \<Rightarrow>
           (case Call t0 t1 invoker breaker w of (err, breaker', w') \<Rightarrow>
              (let breakers2 = breakers1(methodName \<mapsto> breaker');
                   m' = (case m of
                           None \<Rightarrow> None
                         | Some ms \<Rightarrow>
                             Some (UpdateGRPCCircuitBreaker serviceName methodName
                                     (state_int (state breaker')) ms))
               in if err = None \<and> reply = None
                  then (Some (Status Internal ''grpc reply is nil (circuit breaker interceptor bug)''),
                        breakers2, m', w')
                  else (err, breakers2, m', w')))))"

section \<open>The retry interceptor\<close>

text \<open>
  \<^verbatim>\<open>BackoffMultiplier\<close> is a \<^verbatim>\<open>float64\<close>; the field holds the map
  \<^verbatim>\<open>backoff \<mapsto> time.Duration(float64(backoff) * cfg.BackoffMultiplier)\<close> that the loop
  applies, so that no floating-point arithmetic is modelled.
\<close>

record RetryConfig =
  MaxAttempts :: go_int
  InitialBackoff :: Duration
  MaxBackoff :: Duration
  BackoffMultiplier :: "Duration \<Rightarrow> Duration"
  RetryCodes :: "code list"

text \<open>
  The defaults. Doubling is exact in \<^verbatim>\<open>float64\<close> on the backoffs that these defaults
  reach (at most 3 s = \<open>3 * 10^9\<close> ns).
\<close>

definition DefaultRetryConfig :: RetryConfig where
  "DefaultRetryConfig =
     \<lparr> MaxAttempts = 3, InitialBackoff = 100 * 1000000, MaxBackoff = 3 * 1000000000,
       BackoffMultiplier = (\<lambda>b. 2 * b),
       RetryCodes = [Unavailable, DeadlineExceeded, ResourceExhausted, Aborted] \<rparr>"

text \<open>
  The \<^verbatim>\<open>select\<close> between \<^verbatim>\<open>ctx.Done()\<close> and \<^verbatim>\<open>time.After(backoff)\<close>: the world decides;
  \<open>Some e\<close> is \<^verbatim>\<open>ctx.Err()\<close> when the context is done first, \<open>None\<close> when the timer fires.
\<close>

type_synonym 'w waiter = "Duration \<Rightarrow> 'w \<Rightarrow> error option \<times> 'w"

text \<open>
  The loop \<^verbatim>\<open>for attempt := 1; attempt <= cfg.MaxAttempts; attempt++\<close>. The counter is
  incremented only after \<^verbatim>\<open>attempt >= cfg.MaxAttempts\<close> has failed, so it never
  overflows and is an \<open>int\<close> here.
\<close>

function retry_loop ::
  "RetryConfig \<Rightarrow> string \<Rightarrow> string \<Rightarrow> 'w invoker \<Rightarrow> 'w waiter \<Rightarrow> int \<Rightarrow> Duration
     \<Rightarrow> error option \<Rightarrow> Metrics option \<Rightarrow> 'w \<Rightarrow> error option \<times> Metrics option \<times> 'w" where
  "retry_loop cfg serviceName methodName invoker wait attempt backoff lastErr m w =
     (if attempt \<le> sint (MaxAttempts cfg) then
        (case invoker w of
           (None, w1) \<Rightarrow> (None, m, w1)
         | (Some err, w1) \<Rightarrow>
             (if \<not> snd (FromError err) then (Some err, m, w1)
              else if \<not> retryable_loop (RetryCodes cfg) (fst (FromError err))
                      \<or> sint (MaxAttempts cfg) \<le> attempt
              then (Some err, m, w1)
              else
                (let m1 = map_option (IncrementGRPCRetry serviceName methodName) m in
                 case wait backoff w1 of
                   (Some ctxErr, w2) \<Rightarrow> (Some ctxErr, m1, w2)
                 | (None, w2) \<Rightarrow>
                     (let backoff1 = BackoffMultiplier cfg backoff;
                          backoff2 = (if MaxBackoff cfg <s backoff1 then MaxBackoff cfg else backoff1)
                      in retry_loop cfg serviceName methodName invoker wait (attempt + 1) backoff2
                           (Some err) m1 w2))))
      else (lastErr, m, w))"
  by pat_completeness auto
termination
  by (relation "measure (\<lambda>(cfg, serviceName, methodName, invoker, wait, attempt, backoff, lastErr, m, w).
                  nat (sint (MaxAttempts cfg) - attempt))") auto

declare retry_loop.simps [simp del]

text \<open>
  The interceptor returned by \<^verbatim>\<open>RetryInterceptor(cfg, serviceName, m)\<close>; a nil \<open>cfg\<close> is
  \<open>None\<close>.
\<close>

definition RetryInterceptor ::
  "RetryConfig option \<Rightarrow> string \<Rightarrow> string \<Rightarrow> 'w invoker \<Rightarrow> 'w waiter \<Rightarrow> Metrics option \<Rightarrow> 'w
     \<Rightarrow> error option \<times> Metrics option \<times> 'w" where
  "RetryInterceptor cfg serviceName methodName invoker wait m w =
     (let cfg' = (case cfg of None \<Rightarrow> DefaultRetryConfig | Some c \<Rightarrow> c)
      in retry_loop cfg' serviceName methodName invoker wait 1 (InitialBackoff cfg') None m w)"

text \<open>
  A wrapped call that counts its invocations and answers from a script, as the invoker
  of the retry test does (\<^verbatim>\<open>attempts++\<close>, then an answer that depends on the count): the
  world is the number of invocations so far; the \<open>n\<close>-th invocation returns the \<open>n\<close>-th
  entry of the script, and nil once the script is used up.
\<close>

definition scripted :: "error option list \<Rightarrow> nat invoker" where
  "scripted script n = ((if n < length script then script ! n else None), Suc n)"

text \<open>A context that is never done, such as \<^verbatim>\<open>context.Background()\<close>: the timer fires.\<close>

definition timer_fires :: "'w waiter" where
  "timer_fires backoff w = (None, w)"

section \<open>The transport\<close>

text \<open>
  A \<^verbatim>\<open>*grpc.ClientConn\<close> is a handle (a number); the connections themselves live in the
  transport: the state that \<^verbatim>\<open>GetState\<close> reports for each handle, the error that
  \<^verbatim>\<open>Close\<close> returns for it, and whether dialling an address fails. The transport also
  keeps the log of what the manager does: the lock operations on \<^verbatim>\<open>cm.mu\<close>, the dials
  and the closes, in program order.
\<close>

datatype ConnectivityState = Idle | Connecting | Ready | TransientFailure | Shutdown

text \<open>\<^verbatim>\<open>connectivity.State.String()\<close>.\<close>

fun State_String :: "ConnectivityState \<Rightarrow> string" where
  "State_String Idle = ''IDLE''"
| "State_String Connecting = ''CONNECTING''"
| "State_String Ready = ''READY''"
| "State_String TransientFailure = ''TRANSIENT_FAILURE''"
| "State_String Shutdown = ''SHUTDOWN''"

datatype interceptor = LoggingI | MetricsI | CircuitBreakerI | RetryI

datatype event =
  Lock | Unlock | RLock | RUnlock
  | Dial string "interceptor list"
  | CloseConn nat

record Transport =
  connState :: "nat \<Rightarrow> ConnectivityState"
  closeErr :: "nat \<Rightarrow> error option"
  dialErr :: "string \<Rightarrow> error option"
  nextHandle :: nat
  events :: "event list"

definition emit :: "event \<Rightarrow> Transport \<Rightarrow> Transport" where
  "emit e tr = tr\<lparr>events := events tr @ [e]\<rparr>"

definition conn_GetState :: "nat \<Rightarrow> Transport \<Rightarrow> ConnectivityState" where
  "conn_GetState conn tr = connState tr conn"

text \<open>\<^verbatim>\<open>conn.Close()\<close>: the connection is shut down, whatever error is reported.\<close>

definition conn_Close :: "nat \<Rightarrow> Transport \<Rightarrow> error option \<times> Transport" where
  "conn_Close conn tr =
     (closeErr tr conn,
      emit (CloseConn conn) (tr\<lparr>connState := (connState tr)(conn := Shutdown)\<rparr>))"

text \<open>\<^verbatim>\<open>grpc.DialContext\<close>: an error, or a fresh handle.\<close>

definition grpc_DialContext ::
  "string \<Rightarrow> interceptor list \<Rightarrow> Transport \<Rightarrow> (error + nat) \<times> Transport" where
  "grpc_DialContext address chain tr =
     (case dialErr tr address of
        Some err \<Rightarrow> (Inl err, emit (Dial address chain) tr)
      | None \<Rightarrow>
          (Inr (nextHandle tr),
           emit (Dial address chain) (tr\<lparr>nextHandle := Suc (nextHandle tr)\<rparr>)))"

section \<open>The connection manager\<close>

text \<open>
  \<^verbatim>\<open>TransportCredentials\<close> is an opaque object, named by a string here; nil is \<open>None\<close>.
\<close>

record Config =
  MaxMsgSize :: go_int
  KeepAliveTime :: Duration
  KeepAliveTimeout :: Duration
  KeepAlivePermitWithoutStream :: bool
  MaxReconnectDelay :: Duration
  MinConnectTimeout :: Duration
  EnableLogging :: bool
  EnableMetrics :: bool
  EnableRetry :: bool
  EnableCircuitBreaker :: bool
  TransportCredentials :: "string option"

definition Validate :: "Config \<Rightarrow> error option" where
  "Validate c =
     (if MaxMsgSize c \<le>s 0 then Some (Plain ''MaxMsgSize must be greater than 0'')
      else if KeepAliveTime c \<le>s 0 then Some (Plain ''KeepAliveTime must be greater than 0'')
      else if KeepAliveTimeout c \<le>s 0 then Some (Plain ''KeepAliveTimeout must be greater than 0'')
      else if MaxReconnectDelay c \<le>s 0 then Some (Plain ''MaxReconnectDelay must be greater than 0'')
      else if MinConnectTimeout c \<le>s 0 then Some (Plain ''MinConnectTimeout must be greater than 0'')
      else None)"

definition DefaultConfig :: Config where
  "DefaultConfig =
     \<lparr> MaxMsgSize = 1024 * 1024 * 1024,
       KeepAliveTime = 30 * 1000000000,
       KeepAliveTimeout = 5 * 1000000000,
       KeepAlivePermitWithoutStream = True,
       MaxReconnectDelay = 3 * 1000000000,
       MinConnectTimeout = 10 * 1000000000,
       EnableLogging = True,
       EnableMetrics = False,
       EnableRetry = True,
       EnableCircuitBreaker = True,
       TransportCredentials = None \<rparr>"

text \<open>
  The maps of the manager are finite maps; \<^verbatim>\<open>len(m)\<close> is the number of keys. The manager's
  configuration field is \<open>cm_config\<close> (the breaker has a field \<open>config\<close> already).
\<close>

record ConnectionManager =
  connections :: "(string, nat) fmap"
  addresses :: "(string, string) fmap"
  cm_config :: Config
  metrics :: "Metrics option"

definition len :: "('k, 'v) fmap \<Rightarrow> int" where
  "len m = int (fcard (fmdom m))"

definition NewConnectionManager ::
  "Config option \<Rightarrow> Metrics option \<Rightarrow> error + ConnectionManager" where
  "NewConnectionManager cfg m =
     (let cfg' = (case cfg of None \<Rightarrow> DefaultConfig | Some c \<Rightarrow> c) in
      case Validate cfg' of
        Some err \<Rightarrow> Inl (Wrapped ''invalid config'' err)
      | None \<Rightarrow>
          Inr \<lparr> connections = fmempty, addresses = fmempty, cm_config = cfg', metrics = m \<rparr>)"

text \<open>
  The interceptors that \<^verbatim>\<open>createConnection\<close> chains, in order; the other dial options
  do not depend on the manager's state and are not modelled.
\<close>

definition unaryInterceptors :: "ConnectionManager \<Rightarrow> interceptor list" where
  "unaryInterceptors cm =
     (if EnableLogging (cm_config cm) then [LoggingI] else [])
     @ (if EnableMetrics (cm_config cm) \<and> metrics cm \<noteq> None then [MetricsI] else [])
     @ (if EnableCircuitBreaker (cm_config cm) then [CircuitBreakerI] else [])
     @ (if EnableRetry (cm_config cm) then [RetryI] else [])"

definition createConnection ::
  "string \<Rightarrow> string \<Rightarrow> ConnectionManager \<Rightarrow> Transport \<Rightarrow> (error + nat) \<times> Transport" where
  "createConnection address serviceName cm tr =
     grpc_DialContext address (unaryInterceptors cm) tr"

text \<open>
  The usable states of the two checks in \<^verbatim>\<open>GetConnection\<close>.
\<close>

definition usable :: "ConnectivityState \<Rightarrow> bool" where
  "usable st = (st = Ready \<or> st = Idle)"

text \<open>
  \<^verbatim>\<open>GetConnection\<close>, the end: the dial, and the install of the new handle. It runs under
  the lock taken by the second \<^verbatim>\<open>cm.mu.Lock()\<close>; the deferred unlock is the last event
  of both branches.
\<close>

definition GetConnection_dial ::
  "string \<Rightarrow> string \<Rightarrow> ConnectionManager \<times> Transport
     \<Rightarrow> (error + nat) \<times> ConnectionManager \<times> Transport" where
  "GetConnection_dial serviceName address s =
     (case s of (cm, tr) \<Rightarrow>
        (case createConnection address serviceName cm tr of
           (Inl err, tr1) \<Rightarrow>
             (Inl (Wrapped (''failed to create connection for '' @ serviceName) err),
              cm, emit Unlock tr1)
         | (Inr newConn, tr1) \<Rightarrow>
             (let cm1 = cm\<lparr>connections := fmupd serviceName newConn (connections cm)\<rparr>;
                  cm2 = (if EnableMetrics (cm_config cm1) then
                           cm1\<lparr>metrics :=
                                 map_option
                                   (UpdateGRPCConnections serviceName (len (connections cm1)))
                                   (metrics cm1)\<rparr>
                         else cm1)
              in (Inr newConn, cm2, emit Unlock tr1))))"

text \<open>
  \<^verbatim>\<open>GetConnection\<close>, from the second \<^verbatim>\<open>cm.mu.Lock()\<close> on: the re-check under the lock
  and the close of a stale handle, then the dial.
\<close>

definition GetConnection_locked ::
  "string \<Rightarrow> string \<Rightarrow> ConnectionManager \<times> Transport
     \<Rightarrow> (error + nat) \<times> ConnectionManager \<times> Transport" where
  "GetConnection_locked serviceName address s =
     (case s of (cm, tr) \<Rightarrow>
        (let tr1 = emit Lock tr in
         case fmlookup (connections cm) serviceName of
           None \<Rightarrow> GetConnection_dial serviceName address (cm, tr1)
         | Some conn \<Rightarrow>
             (if usable (conn_GetState conn tr1) then (Inr conn, cm, emit Unlock tr1)
              else
                GetConnection_dial serviceName address
                  (cm\<lparr>connections := fmdrop serviceName (connections cm)\<rparr>,
                   snd (conn_Close conn tr1)))))"

text \<open>
  \<^verbatim>\<open>GetConnection\<close>. A missing key of \<^verbatim>\<open>cm.addresses\<close> reads as the empty string.
\<close>

definition GetConnection ::
  "string \<Rightarrow> string \<Rightarrow> ConnectionManager \<times> Transport
     \<Rightarrow> (error + nat) \<times> ConnectionManager \<times> Transport" where
  "GetConnection serviceName address s =
     (case s of (cm, tr) \<Rightarrow>
        (let tr1 = emit Lock tr;
             cm1 = (if address \<noteq> []
                    then cm\<lparr>addresses := fmupd serviceName address (addresses cm)\<rparr>
                    else cm);
             address1 = (if address \<noteq> [] then address
                         else (case fmlookup (addresses cm) serviceName of
                                 None \<Rightarrow> [] | Some a \<Rightarrow> a));
             tr2 = emit Unlock tr1
         in if address1 = []
            then (Inl (Plain (''address not provided and service '' @ serviceName
                               @ '' not registered'')), cm1, tr2)
            else
              (let tr3 = emit RUnlock (emit RLock tr2) in
               case fmlookup (connections cm1) serviceName of
                 None \<Rightarrow> GetConnection_locked serviceName address1 (cm1, tr3)
               | Some conn \<Rightarrow>
                   (if usable (conn_GetState conn tr3) then (Inr conn, cm1, tr3)
                    else GetConnection_locked serviceName address1 (cm1, tr3)))))"

definition CloseConnection ::
  "string \<Rightarrow> ConnectionManager \<times> Transport \<Rightarrow> error option \<times> ConnectionManager \<times> Transport" where
  "CloseConnection serviceName s =
     (case s of (cm, tr) \<Rightarrow>
        (let tr1 = emit Lock tr;
             conn = fmlookup (connections cm) serviceName;
             cm1 = cm\<lparr>connections := fmdrop serviceName (connections cm)\<rparr>;
             cm2 = (if EnableMetrics (cm_config cm1) then
                      cm1\<lparr>metrics :=
                            map_option (UpdateGRPCConnections serviceName (len (connections cm1)))
                              (metrics cm1)\<rparr>
                    else cm1)
         in case conn of
              Some c \<Rightarrow> (case conn_Close c tr1 of (err, tr2) \<Rightarrow> (err, cm2, emit Unlock tr2))
            | None \<Rightarrow> (None, cm2, emit Unlock tr1)))"

text \<open>
  The loop of \<^verbatim>\<open>Close\<close> over \<^verbatim>\<open>cm.connections\<close>. Go iterates a map in an order of the
  runtime's choice: the order is the list of keys \<open>names\<close>.
\<close>

fun Close_loop ::
  "(string, nat) fmap \<Rightarrow> string list \<Rightarrow> error option \<Rightarrow> Transport \<Rightarrow> error option \<times> Transport" where
  "Close_loop conns [] lastErr tr = (lastErr, tr)"
| "Close_loop conns (name # names) lastErr tr =
     (case fmlookup conns name of
        None \<Rightarrow> Close_loop conns names lastErr tr
      | Some conn \<Rightarrow>
          (case conn_Close conn tr of
             (Some err, tr') \<Rightarrow> Close_loop conns names (Some err) tr'
           | (None, tr') \<Rightarrow> Close_loop conns names lastErr tr'))"

text \<open>
  \<^verbatim>\<open>Close\<close>. The metrics loop runs over the map that has just been replaced by an empty
  one, so its body never runs.
\<close>

definition Close ::
  "string list \<Rightarrow> ConnectionManager \<times> Transport \<Rightarrow> error option \<times> ConnectionManager \<times> Transport" where
  "Close names s =
     (case s of (cm, tr) \<Rightarrow>
        (case Close_loop (connections cm) names None (emit Lock tr) of (lastErr, tr1) \<Rightarrow>
           (lastErr, cm\<lparr>connections := fmempty, addresses := fmempty\<rparr>, emit Unlock tr1)))"

definition GetConnectionsCount :: "ConnectionManager \<times> Transport \<Rightarrow> int \<times> Transport" where
  "GetConnectionsCount s =
     (case s of (cm, tr) \<Rightarrow> (len (connections cm), emit RUnlock (emit RLock tr)))"

section \<open>The health check\<close>

record ConnectionHealth =
  State :: string
  Healthy :: bool
  Error :: string

text \<open>The first loop of \<^verbatim>\<open>HealthCheck\<close>, over the keys of \<^verbatim>\<open>cm.addresses\<close>.\<close>

fun HealthCheck_addresses ::
  "ConnectionManager \<Rightarrow> Transport \<Rightarrow> string list \<Rightarrow> (string, ConnectionHealth) fmap \<times> Metrics option
     \<Rightarrow> (string, ConnectionHealth) fmap \<times> Metrics option" where
  "HealthCheck_addresses cm tr [] acc = acc"
| "HealthCheck_addresses cm tr (name # names) acc =
     (case acc of (result, m) \<Rightarrow>
        (case fmlookup (connections cm) name of
           None \<Rightarrow>
             HealthCheck_addresses cm tr names
               (fmupd name \<lparr> State = ''NotConnected'', Healthy = False,
                             Error = ''connection not established yet'' \<rparr> result, m)
         | Some conn \<Rightarrow>
             (let st = conn_GetState conn tr;
                  result1 = fmupd name \<lparr> State = State_String st, Healthy = (st = Ready),
                                         Error = [] \<rparr> result;
                  m1 = (if EnableMetrics (cm_config cm)
                        then map_option (UpdateGRPCConnectionState name (State_String st)) m
                        else m)
              in HealthCheck_addresses cm tr names (result1, m1))))"

text \<open>
  The second loop, over the entries of \<^verbatim>\<open>cm.connections\<close>: the handles without a
  registered address.
\<close>

fun HealthCheck_connections ::
  "ConnectionManager \<Rightarrow> Transport \<Rightarrow> string list \<Rightarrow> (string, ConnectionHealth) fmap
     \<Rightarrow> (string, ConnectionHealth) fmap" where
  "HealthCheck_connections cm tr [] result = result"
| "HealthCheck_connections cm tr (name # names) result =
     (case fmlookup (connections cm) name of
        None \<Rightarrow> HealthCheck_connections cm tr names result
      | Some conn \<Rightarrow>
          (if fmlookup (addresses cm) name = None then
             (let st = conn_GetState conn tr
              in HealthCheck_connections cm tr names
                   (fmupd name \<lparr> State = State_String st, Healthy = (st = Ready),
                                 Error = [] \<rparr> result))
           else HealthCheck_connections cm tr names result))"

text \<open>
  \<^verbatim>\<open>HealthCheck\<close>; \<open>anames\<close> and \<open>cnames\<close> are the orders in which the runtime iterates
  the keys of \<^verbatim>\<open>cm.addresses\<close> and \<^verbatim>\<open>cm.connections\<close>. The function has no error result.
\<close>

definition HealthCheck ::
  "string list \<Rightarrow> string list \<Rightarrow> ConnectionManager \<times> Transport
     \<Rightarrow> (string, ConnectionHealth) fmap \<times> ConnectionManager \<times> Transport" where
  "HealthCheck anames cnames s =
     (case s of (cm, tr) \<Rightarrow>
        (let tr1 = emit RLock tr in
         case HealthCheck_addresses cm tr1 anames (fmempty, metrics cm) of (result, m) \<Rightarrow>
           (HealthCheck_connections cm tr1 cnames result, cm\<lparr>metrics := m\<rparr>, emit RUnlock tr1)))"

section \<open>Reading the log\<close>

text \<open>The handles closed in a log, in order.\<close>

fun closed_handles :: "event list \<Rightarrow> nat list" where
  "closed_handles [] = []"
| "closed_handles (CloseConn h # es) = h # closed_handles es"
| "closed_handles (e # es) = closed_handles es"



text \<open>The events that a step from transport \<open>tr\<close> to transport \<open>tr'\<close> has added.\<close>

definition emitted :: "Transport \<Rightarrow> Transport \<Rightarrow> event list" where
  "emitted tr tr' = drop (length (events tr)) (events tr')"

section \<open>Notions of the specification and test fixtures\<close>

text \<open>
  A qualifying failure of a breaker: the call returned an error whose status code is in
  the breaker's \<^verbatim>\<open>RetryableCodes\<close>.
\<close>

definition qualifying :: "CircuitBreaker \<Rightarrow> error option \<Rightarrow> bool" where
  "qualifying cb err =
     (case err of
        None \<Rightarrow> False
      | Some e \<Rightarrow> retryable_loop (RetryableCodes (config cb)) (fst (FromError e)))"

text \<open>
  The configuration and the invoker of \<^verbatim>\<open>TestCircuitBreaker_StateTransitions\<close>, and an
  invoker that succeeds. Their world is the number of invocations so far.
\<close>

definition test_cb_cfg :: CircuitBreakerConfig where
  "test_cb_cfg =
     \<lparr> FailureThreshold = 2, SuccessThreshold = 1, Timeout = 1000000000,
       RetryableCodes = [Unavailable] \<rparr>"

definition failing_invoker :: "nat invoker" where
  "failing_invoker n = (Some (Status Unavailable ''service unavailable''), Suc n)"

definition succeeding_invoker :: "nat invoker" where
  "succeeding_invoker n = (None, Suc n)"

text \<open>
  The configuration of \<^verbatim>\<open>TestRetryInterceptor\<close>, and the error that its invoker returns
  on the first two invocations.
\<close>

definition test_retry_cfg :: RetryConfig where
  "test_retry_cfg =
     \<lparr> MaxAttempts = 3, InitialBackoff = 10 * 1000000, MaxBackoff = 100 * 1000000,
       BackoffMultiplier = (\<lambda>b. 2 * b), RetryCodes = [Unavailable] \<rparr>"

definition test_retry_err :: error where
  "test_retry_err = Status Unavailable ''retry''"

text \<open>
  The first and the last non-nil error of a list of results, in order.
\<close>

fun first_error :: "error option list \<Rightarrow> error option" where
  "first_error [] = None"
| "first_error (None # rs) = first_error rs"
| "first_error (Some e # rs) = Some e"

fun last_error :: "error option list \<Rightarrow> error option" where
  "last_error [] = None"
| "last_error (r # rs) = (case last_error rs of None \<Rightarrow> r | Some e \<Rightarrow> Some e)"

text \<open>The handles of a map under the keys \<open>names\<close>, in the order of the keys.\<close>

definition handles_of :: "(string, nat) fmap \<Rightarrow> string list \<Rightarrow> nat list" where
  "handles_of conns names = List.map_filter (fmlookup conns) names"

text \<open>A service is registered when a non-empty address is stored for it.\<close>

definition registered :: "ConnectionManager \<Rightarrow> string \<Rightarrow> bool" where
  "registered cm serviceName =
     (case fmlookup (addresses cm) serviceName of None \<Rightarrow> False | Some a \<Rightarrow> a \<noteq> [])"

text \<open>Every tracked connection belongs to a registered service.\<close>

definition tracked_registered :: "ConnectionManager \<Rightarrow> bool" where
  "tracked_registered cm =
     (fmdom' (connections cm) \<subseteq> {serviceName. registered cm serviceName})"

text \<open>
  The health report of the specification for one service name: the state name of its
  handle, healthy exactly when the state is \<open>Ready\<close>; \<^verbatim>\<open>NotConnected\<close> and unhealthy when
  the service has an address and no handle; no entry otherwise.
\<close>

definition health_of :: "ConnectionManager \<Rightarrow> Transport \<Rightarrow> string \<Rightarrow> ConnectionHealth option" where
  "health_of cm tr name =
     (case fmlookup (connections cm) name of
        Some conn \<Rightarrow>
          Some \<lparr> State = State_String (connState tr conn),
                 Healthy = (connState tr conn = Ready), Error = [] \<rparr>
      | None \<Rightarrow>
          (if name \<in> fmdom' (addresses cm)
           then Some \<lparr> State = ''NotConnected'', Healthy = False,
                       Error = ''connection not established yet'' \<rparr>
           else None))"

text \<open>The addresses dialled in a log, in order.\<close>

fun dialled :: "event list \<Rightarrow> string list" where
  "dialled [] = []"
| "dialled (Dial a c # es) = a # dialled es"
| "dialled (e # es) = dialled es"

text \<open>
  Repeated calls of \<^verbatim>\<open>GetConnection\<close> for one service, one per address of the list, with
  nothing else happening in between.
\<close>

fun GetConnection_repeat ::
  "string \<Rightarrow> string list \<Rightarrow> ConnectionManager \<times> Transport
     \<Rightarrow> (error + nat) list \<times> ConnectionManager \<times> Transport" where
  "GetConnection_repeat serviceName [] s = ([], s)"
| "GetConnection_repeat serviceName (address # as) s =
     (case GetConnection serviceName address s of (r, s') \<Rightarrow>
        (case GetConnection_repeat serviceName as s' of (rs, s'') \<Rightarrow> (r # rs, s'')))"

text \<open>
  A manager that tracks two connections and a transport in which closing either of them
  fails, each with an error of its own; and a transport without connections, on which
  every dial succeeds.
\<close>

definition two_conn_manager :: ConnectionManager where
  "two_conn_manager =
     \<lparr> connections = fmupd ''b'' 2 (fmupd ''a'' 1 fmempty),
       addresses = fmupd ''b'' ''hostb:50051'' (fmupd ''a'' ''hosta:50051'' fmempty),
       cm_config = DefaultConfig, metrics = None \<rparr>"

definition failing_close_transport :: Transport where
  "failing_close_transport =
     \<lparr> connState = (\<lambda>conn. if conn = 1 then Ready else Idle),
       closeErr = (\<lambda>conn. if conn = 1 then Some (Plain ''first close failed'')
                          else if conn = 2 then Some (Plain ''second close failed'')
                          else None),
       dialErr = (\<lambda>address. None), nextHandle = 3, events = [] \<rparr>"

text \<open>The same manager with a third service that is registered and has no connection.\<close>

definition three_service_manager :: ConnectionManager where
  "three_service_manager =
     two_conn_manager\<lparr>addresses := fmupd ''c'' ''hostc:50051'' (addresses two_conn_manager)\<rparr>"



section \<open>Properties of the configuration\<close>

text \<open>
  Claim C6. \<^verbatim>\<open>Config.Validate\<close> returns an error if and only if the maximum message size
  or one of the four durations (keepalive interval, keepalive timeout, maximum reconnect
  delay, minimum connect timeout) is at most 0; hence a configuration whose five fields
  are all strictly positive validates, whatever its other fields are.
\<close>

theorem Validate_fails_iff:
  "(Validate c \<noteq> None) =
     (sint (MaxMsgSize c) \<le> 0 \<or> sint (KeepAliveTime c) \<le> 0 \<or> sint (KeepAliveTimeout c) \<le> 0
      \<or> sint (MaxReconnectDelay c) \<le> 0 \<or> sint (MinConnectTimeout c) \<le> 0)
   \<and> (0 < sint (MaxMsgSize c) \<and> 0 < sint (KeepAliveTime c) \<and> 0 < sint (KeepAliveTimeout c)
        \<and> 0 < sint (MaxReconnectDelay c) \<and> 0 < sint (MinConnectTimeout c)
      \<longrightarrow> Validate c = None)"
  by (simp add: Validate_def word_sle_eq)

theorem Validate_fails_iff_witness:
  "Validate DefaultConfig = None
   \<and> Validate (DefaultConfig\<lparr>KeepAliveTimeout := 0\<rparr>) \<noteq> None
   \<and> Validate (DefaultConfig\<lparr>EnableLogging := False, EnableMetrics := True,
                               TransportCredentials := Some ''tls''\<rparr>) = None"
  using Validate_fails_iff [of DefaultConfig]
    Validate_fails_iff [of "DefaultConfig\<lparr>KeepAliveTimeout := 0\<rparr>"]
    Validate_fails_iff [of "DefaultConfig\<lparr>EnableLogging := False, EnableMetrics := True,
                               TransportCredentials := Some ''tls''\<rparr>"]
  by (simp add: DefaultConfig_def)

section \<open>Properties of the circuit breaker\<close>

lemma sint_succ: "sint (x::64 word) < sint (y::64 word) \<Longrightarrow> sint (x + 1) = sint x + 1"
proof -
  assume a: "sint x < sint y"
  have "sint y < 2 ^ 63" using sint_lt [of y] by simp
  moreover have "- (2 ^ 63) \<le> sint x" using sint_ge [of x] by simp
  ultimately have "- (2 ^ 63) \<le> sint x + 1" "sint x + 1 < 2 ^ 63" using a by linarith+
  then have "signed_take_bit 63 (sint x + 1) = sint x + 1"
    by (simp add: signed_take_bit_int_eq_self)
  then show ?thesis by (simp add: sint_word_add)
qed

lemma Call_not_Open:
  "state cb \<noteq> StateOpen \<Longrightarrow>
   Call t0 t1 invoker cb w = (fst (invoker w), Call_record t1 (fst (invoker w)) cb, snd (invoker w))"
  by (simp add: Call_def Call_gate_def split: prod.splits)

lemma Call_Open_rejected:
  "state cb = StateOpen \<Longrightarrow> time_Since t0 (lastFailure cb) < sint (Timeout (config cb)) \<Longrightarrow>
   Call t0 t1 invoker cb w = (Some (Status Unavailable ''circuit breaker is open''), cb, w)"
  by (simp add: Call_def Call_gate_def)

lemma Call_Open_probe:
  "state cb = StateOpen \<Longrightarrow> \<not> time_Since t0 (lastFailure cb) < sint (Timeout (config cb)) \<Longrightarrow>
   Call t0 t1 invoker cb w =
     (fst (invoker w),
      Call_record t1 (fst (invoker w)) (cb\<lparr>state := StateHalfOpen, successes := 0\<rparr>),
      snd (invoker w))"
  by (simp add: Call_def Call_gate_def split: prod.splits)

lemma Call_record_failure_Closed:
  "state cb = StateClosed \<Longrightarrow> qualifying cb (Some e) \<Longrightarrow>
   Call_record t (Some e) cb =
     cb\<lparr>failures := failures cb + 1, lastFailure := t,
        state := (if FailureThreshold (config cb) \<le>s failures cb + 1 then StateOpen else StateClosed)\<rparr>"
  by (simp add: Call_record_def qualifying_def Let_def)

lemma Call_record_failure_HalfOpen:
  "state cb = StateHalfOpen \<Longrightarrow> qualifying cb (Some e) \<Longrightarrow>
   Call_record t (Some e) cb = cb\<lparr>failures := 0, lastFailure := t, state := StateOpen\<rparr>"
  by (simp add: Call_record_def qualifying_def Let_def)

lemma Call_record_success_HalfOpen:
  "state cb = StateHalfOpen \<Longrightarrow>
   Call_record t None cb =
     cb\<lparr>failures := 0, successes := successes cb + 1,
        state := (if SuccessThreshold (config cb) \<le>s successes cb + 1 then StateClosed
                  else StateHalfOpen)\<rparr>"
  by (simp add: Call_record_def Let_def)

lemma Calls_Cons_breaker:
  "Call t0 t1 invoker cb w = (err, cb', w') \<Longrightarrow>
   fst (snd (Calls ((t0, t1, invoker) # cs) cb w)) = fst (snd (Calls cs cb' w'))"
  by (simp split: prod.splits)

text \<open>
  \<open>n\<close> successful calls on a half-open breaker: the breaker stays half-open, counting the
  successes, until the count reaches \<^verbatim>\<open>SuccessThreshold\<close>, and is closed then.
\<close>

lemma successes_close:
  assumes "state cb = StateHalfOpen"
    and "sint (successes cb) + int (length steps) \<le> sint (SuccessThreshold (config cb))"
    and "\<forall>c \<in> set steps. \<forall>w. fst (snd (snd c) w) = None"
  shows "(let cb' = fst (snd (Calls steps cb w)) in
          config cb' = config cb \<and>
          (if steps \<noteq> [] \<and> sint (successes cb) + int (length steps) = sint (SuccessThreshold (config cb))
           then state cb' = StateClosed
           else state cb' = StateHalfOpen
                \<and> sint (successes cb') = sint (successes cb) + int (length steps)))"
  using assms
proof (induction steps arbitrary: cb w)
  case Nil
  then show ?case by simp
next
  case (Cons c cs)
  obtain t0 t1 invoker where c: "c = (t0, t1, invoker)" by (cases c) auto
  let ?cb1 = "Call_record t1 None cb"
  have ok: "fst (invoker w) = None" using Cons.prems(3) c by simp
  have lt: "sint (successes cb) < sint (SuccessThreshold (config cb))"
    using Cons.prems(2) by simp
  have s1: "sint (successes cb + 1) = sint (successes cb) + 1"
    using lt by (rule sint_succ)
  have call: "Call t0 t1 invoker cb w = (None, ?cb1, snd (invoker w))"
    using Cons.prems(1) ok by (simp add: Call_not_Open)
  show ?case
  proof (cases "cs = []")
    case True
    then show ?thesis
      using Cons.prems(1,2) s1 call c
      by (auto simp: Call_record_success_HalfOpen word_sle_eq Let_def)
  next
    case False
    then have len: "1 \<le> int (length cs)" by (cases cs) auto
    have st1: "state ?cb1 = StateHalfOpen" and cf1: "config ?cb1 = config cb"
      and su1: "sint (successes ?cb1) = sint (successes cb) + 1"
      using Cons.prems(1,2) s1 len
      by (auto simp: Call_record_success_HalfOpen word_sle_eq)
    have p2: "sint (successes ?cb1) + int (length cs) \<le> sint (SuccessThreshold (config ?cb1))"
      using Cons.prems(2) su1 cf1 by simp
    have p3: "\<forall>c \<in> set cs. \<forall>w. fst (snd (snd c) w) = None" using Cons.prems(3) by simp
    from Cons.IH [OF st1 p2 p3, of "snd (invoker w)"]
    show ?thesis
      unfolding c Calls_Cons_breaker [OF call] using False su1 cf1
      by (simp add: Let_def add.assoc)
  qed
qed

lemmas fixture_defs =
  NewCircuitBreaker_def test_cb_cfg_def failing_invoker_def succeeding_invoker_def
  qualifying_def time_Since_def

text \<open>
  Claim C1. For a breaker with \<^verbatim>\<open>FailureThreshold = 2\<close>:
  \<^item> two consecutive qualifying failures on a closed breaker whose failure count is 0 leave
    it closed after the first and open after the second;
  \<^item> a call on an open breaker while \<^verbatim>\<open>time.Since(lastFailure) < Timeout\<close> returns the
    error \<^verbatim>\<open>Unavailable\<close> "circuit breaker is open" and leaves the breaker and the world
    as they were, whatever the invoker is: the invoker is not called;
  \<^item> a call on an open breaker once the timeout has elapsed makes the breaker half-open
    with \<^verbatim>\<open>successes = 0\<close> and calls the invoker;
  \<^item> \<^verbatim>\<open>SuccessThreshold\<close> (at least one) consecutive successful calls on a half-open breaker
    whose success count is 0 close it, and no fewer do;
  \<^item> one qualifying failure on a half-open breaker opens it.
\<close>

theorem breaker_threshold_two:
  assumes thr: "FailureThreshold (config cb) = 2"
  shows
    "(state cb = StateClosed \<and> failures cb = 0
        \<and> invoker1 w = (Some e1, w1) \<and> qualifying cb (Some e1)
        \<and> invoker2 w1 = (Some e2, w2) \<and> qualifying cb (Some e2)
      \<longrightarrow> state (fst (snd (Call t0 t1 invoker1 cb w))) = StateClosed
          \<and> Calls [(t0, t1, invoker1), (t2, t3, invoker2)] cb w
              = ([Some e1, Some e2], cb\<lparr>failures := 2, lastFailure := t3, state := StateOpen\<rparr>, w2))
     \<and> (state cb = StateOpen \<and> time_Since t0 (lastFailure cb) < sint (Timeout (config cb))
      \<longrightarrow> Call t0 t1 invoker cb w = (Some (Status Unavailable ''circuit breaker is open''), cb, w))
     \<and> (state cb = StateOpen \<and> sint (Timeout (config cb)) \<le> time_Since t0 (lastFailure cb)
      \<longrightarrow> Call_gate t0 cb = Inr (cb\<lparr>state := StateHalfOpen, successes := 0\<rparr>)
          \<and> Call t0 t1 invoker cb w
              = (fst (invoker w),
                 Call_record t1 (fst (invoker w)) (cb\<lparr>state := StateHalfOpen, successes := 0\<rparr>),
                 snd (invoker w)))
     \<and> (state cb = StateHalfOpen \<and> successes cb = 0
        \<and> 0 < length steps \<and> int (length steps) = sint (SuccessThreshold (config cb))
        \<and> (\<forall>c \<in> set steps. \<forall>v. fst (snd (snd c) v) = None)
      \<longrightarrow> state (fst (snd (Calls steps cb w))) = StateClosed
          \<and> (\<forall>k < length steps. state (fst (snd (Calls (take k steps) cb w))) = StateHalfOpen))
     \<and> (state cb = StateHalfOpen \<and> invoker w = (Some e, w') \<and> qualifying cb (Some e)
      \<longrightarrow> state (fst (snd (Call t0 t1 invoker cb w))) = StateOpen)"
proof (intro conjI impI)
  assume a: "state cb = StateClosed \<and> failures cb = 0
        \<and> invoker1 w = (Some e1, w1) \<and> qualifying cb (Some e1)
        \<and> invoker2 w1 = (Some e2, w2) \<and> qualifying cb (Some e2)"
  then show "state (fst (snd (Call t0 t1 invoker1 cb w))) = StateClosed"
    using thr by (simp add: Call_not_Open Call_record_failure_Closed word_sle_eq)
  from a show "Calls [(t0, t1, invoker1), (t2, t3, invoker2)] cb w
              = ([Some e1, Some e2], cb\<lparr>failures := 2, lastFailure := t3, state := StateOpen\<rparr>, w2)"
    using thr
    by (simp add: Call_not_Open Call_record_failure_Closed qualifying_def word_sle_eq)
next
  assume "state cb = StateOpen \<and> time_Since t0 (lastFailure cb) < sint (Timeout (config cb))"
  then show "Call t0 t1 invoker cb w = (Some (Status Unavailable ''circuit breaker is open''), cb, w)"
    by (simp add: Call_Open_rejected)
next
  assume a: "state cb = StateOpen \<and> sint (Timeout (config cb)) \<le> time_Since t0 (lastFailure cb)"
  then show "Call_gate t0 cb = Inr (cb\<lparr>state := StateHalfOpen, successes := 0\<rparr>)"
    by (simp add: Call_gate_def)
  from a show "Call t0 t1 invoker cb w
              = (fst (invoker w),
                 Call_record t1 (fst (invoker w)) (cb\<lparr>state := StateHalfOpen, successes := 0\<rparr>),
                 snd (invoker w))"
    by (simp add: Call_Open_probe)
next
  assume a: "state cb = StateHalfOpen \<and> successes cb = 0
        \<and> 0 < length steps \<and> int (length steps) = sint (SuccessThreshold (config cb))
        \<and> (\<forall>c \<in> set steps. \<forall>v. fst (snd (snd c) v) = None)"
  then have h: "state cb = StateHalfOpen" and z: "sint (successes cb) = 0"
    and n: "int (length steps) = sint (SuccessThreshold (config cb))" and ne: "steps \<noteq> []"
    and ok: "\<forall>c \<in> set steps. \<forall>v. fst (snd (snd c) v) = None"
    by auto
  show "state (fst (snd (Calls steps cb w))) = StateClosed"
    using successes_close [of cb steps w] h z n ne ok by (simp add: Let_def)
  show "\<forall>k < length steps. state (fst (snd (Calls (take k steps) cb w))) = StateHalfOpen"
  proof (intro allI impI)
    fix k assume k: "k < length steps"
    have ok': "\<forall>c \<in> set (take k steps). \<forall>v. fst (snd (snd c) v) = None"
      using ok by (meson in_set_takeD)
    show "state (fst (snd (Calls (take k steps) cb w))) = StateHalfOpen"
      using successes_close [of cb "take k steps" w] h z n k ok' by (simp add: Let_def)
  qed
next
  assume "state cb = StateHalfOpen \<and> invoker w = (Some e, w') \<and> qualifying cb (Some e)"
  then show "state (fst (snd (Call t0 t1 invoker cb w))) = StateOpen"
    by (simp add: Call_not_Open Call_record_failure_HalfOpen)
qed

text \<open>
  The scenario of C1 on the breaker of \<^verbatim>\<open>TestCircuitBreaker_StateTransitions\<close>
  (\<^verbatim>\<open>SuccessThreshold = 1\<close>, timeout 1 s, last failure at instant 3).
\<close>

theorem breaker_threshold_two_witness:
  "Calls [(0, 1, failing_invoker), (2, 3, failing_invoker)] (NewCircuitBreaker (Some test_cb_cfg)) 0
     = ([Some (Status Unavailable ''service unavailable''),
         Some (Status Unavailable ''service unavailable'')],
        (NewCircuitBreaker (Some test_cb_cfg))\<lparr>failures := 2, lastFailure := 3, state := StateOpen\<rparr>,
        2)
   \<and> Call 4 5 failing_invoker
        ((NewCircuitBreaker (Some test_cb_cfg))\<lparr>failures := 2, lastFailure := 3, state := StateOpen\<rparr>) 2
     = (Some (Status Unavailable ''circuit breaker is open''),
        (NewCircuitBreaker (Some test_cb_cfg))\<lparr>failures := 2, lastFailure := 3, state := StateOpen\<rparr>,
        2)
   \<and> Call_gate 1000000003
        ((NewCircuitBreaker (Some test_cb_cfg))\<lparr>failures := 2, lastFailure := 3, state := StateOpen\<rparr>)
     = Inr ((NewCircuitBreaker (Some test_cb_cfg))
              \<lparr>failures := 2, lastFailure := 3, state := StateHalfOpen, successes := 0\<rparr>)
   \<and> state (fst (snd (Calls [(1000000003, 1000000004, succeeding_invoker)]
        ((NewCircuitBreaker (Some test_cb_cfg))
              \<lparr>failures := 2, lastFailure := 3, state := StateHalfOpen\<rparr>) 2))) = StateClosed
   \<and> state (fst (snd (Call 1000000003 1000000004 failing_invoker
        ((NewCircuitBreaker (Some test_cb_cfg))
              \<lparr>failures := 2, lastFailure := 3, state := StateHalfOpen\<rparr>) 2))) = StateOpen"
proof -
  let ?cb = "NewCircuitBreaker (Some test_cb_cfg)"
  let ?open = "?cb\<lparr>failures := 2, lastFailure := 3, state := StateOpen\<rparr>"
  let ?half = "?cb\<lparr>failures := 2, lastFailure := 3, state := StateHalfOpen\<rparr>"
  let ?e = "Status Unavailable ''service unavailable''"
  note inst = breaker_threshold_two [where ?invoker1.0 = failing_invoker
      and ?invoker2.0 = failing_invoker and ?e1.0 = ?e and ?e2.0 = ?e and e = ?e
      and ?w1.0 = 1 and ?w2.0 = 2 and w' = 3 and ?t2.0 = 2 and ?t3.0 = 3
      and steps = "[(1000000003, 1000000004, succeeding_invoker)]"
      and invoker = failing_invoker]
  have 1: "Calls [(0, 1, failing_invoker), (2, 3, failing_invoker)] ?cb 0
             = ([Some ?e, Some ?e], ?open, 2)"
    using inst [where cb = ?cb and w = 0 and ?t0.0 = 0 and ?t1.0 = 1]
    by (simp add: fixture_defs)
  have 2: "Call 4 5 failing_invoker ?open 2
             = (Some (Status Unavailable ''circuit breaker is open''), ?open, 2)"
    using inst [where cb = ?open and w = 2 and ?t0.0 = 4 and ?t1.0 = 5]
    by (simp add: fixture_defs)
  have 3: "Call_gate 1000000003 ?open = Inr (?open\<lparr>state := StateHalfOpen, successes := 0\<rparr>)"
    using inst [where cb = ?open and w = 2 and ?t0.0 = 1000000003 and ?t1.0 = 1000000004]
    by (simp add: fixture_defs)
  have 4: "state (fst (snd (Calls [(1000000003, 1000000004, succeeding_invoker)] ?half 2)))
             = StateClosed"
    using inst [where cb = ?half and w = 2 and ?t0.0 = 1000000003 and ?t1.0 = 1000000004]
    by (simp add: fixture_defs)
  have 5: "state (fst (snd (Call 1000000003 1000000004 failing_invoker ?half 2))) = StateOpen"
    using inst [where cb = ?half and w = 2 and ?t0.0 = 1000000003 and ?t1.0 = 1000000004]
    by (simp add: fixture_defs)
  show ?thesis using 1 2 3 4 5 by simp
qed

text \<open>
  The failure count is 0 whenever a call leaves a breaker closed that was not closed
  before: the only way back to \<open>StateClosed\<close> is a success, which resets the count.
\<close>

lemma enters_Closed_without_failures:
  "state cb \<noteq> StateClosed \<Longrightarrow> state (fst (snd (Call t0 t1 invoker cb w))) = StateClosed
   \<Longrightarrow> failures (fst (snd (Call t0 t1 invoker cb w))) = 0"
  by (auto simp: Call_def Call_gate_def Call_record_def Let_def
           split: if_splits option.splits prod.splits)




text \<open>
  Claim C10. The circuit-breaker interceptor returns the synthetic \<^verbatim>\<open>Internal\<close> error
  "grpc reply is nil (circuit breaker interceptor bug)" when the call through the
  method's breaker returns no error and the reply value is nil; in every other case it
  returns what the call through the breaker returned.
\<close>

theorem CircuitBreakerInterceptor_nil_reply:
  "fst (CircuitBreakerInterceptor serviceName cfg t0 t1 methodName reply invoker (breakers, m, w)) =
     (if fst (Call t0 t1 invoker (fst (getBreaker cfg methodName breakers)) w) = None \<and> reply = None
      then Some (Status Internal ''grpc reply is nil (circuit breaker interceptor bug)'')
      else fst (Call t0 t1 invoker (fst (getBreaker cfg methodName breakers)) w))"
  by (simp add: CircuitBreakerInterceptor_def Let_def split: prod.splits)

section \<open>Properties of the retry interceptor\<close>

text \<open>
  When every remaining attempt fails with a retryable status, the loop makes all of them
  and returns the error of the last one.
\<close>

lemma scripted_at:
  "k < length script \<Longrightarrow> scripted script k = (script ! k, Suc k)"
  by (simp add: scripted_def)

lemma retry_loop_all_fail:
  assumes "a \<le> sint (MaxAttempts cfg)"
    and "\<forall>i. k \<le> i \<longrightarrow> i \<le> k + nat (sint (MaxAttempts cfg) - a) \<longrightarrow>
           i < length script \<and>
           (\<exists>c msg. script ! i = Some (Status c msg) \<and> retryable_loop (RetryCodes cfg) c)"
  shows "fst (retry_loop cfg serviceName methodName (scripted script) timer_fires a b lastErr m k)
           = script ! (k + nat (sint (MaxAttempts cfg) - a))
         \<and> snd (snd (retry_loop cfg serviceName methodName (scripted script) timer_fires a b lastErr m k))
           = Suc (k + nat (sint (MaxAttempts cfg) - a))"
  using assms
proof (induction "nat (sint (MaxAttempts cfg) - a)" arbitrary: a b lastErr m k)
  case 0
  then have eq: "a = sint (MaxAttempts cfg)" by simp
  from "0.prems"(2) [rule_format, of k] obtain c msg where
    k: "k < length script" and sk: "script ! k = Some (Status c msg)"
    by auto
  have "retry_loop cfg serviceName methodName (scripted script) timer_fires a b lastErr m k
          = (script ! k, m, Suc k)"
    using eq k sk by (subst retry_loop.simps) (simp add: scripted_at)
  then show ?case using eq by simp
next
  case (Suc n)
  then have lt: "a < sint (MaxAttempts cfg)" and n: "n = nat (sint (MaxAttempts cfg) - (a + 1))"
    by linarith+
  from Suc.prems(2) [rule_format, of k] obtain c msg where
    k: "k < length script" and sk: "script ! k = Some (Status c msg)"
    and rc: "retryable_loop (RetryCodes cfg) c"
    by auto
  have le': "a + 1 \<le> sint (MaxAttempts cfg)" using lt by simp
  have idx: "Suc k + nat (sint (MaxAttempts cfg) - (a + 1)) = k + nat (sint (MaxAttempts cfg) - a)"
    using lt by linarith
  have rest: "\<forall>i. Suc k \<le> i \<longrightarrow> i \<le> Suc k + nat (sint (MaxAttempts cfg) - (a + 1)) \<longrightarrow>
           i < length script \<and>
           (\<exists>c msg. script ! i = Some (Status c msg) \<and> retryable_loop (RetryCodes cfg) c)"
    using Suc.prems(2) idx by auto
  note IH = Suc.hyps(1) [OF n le' rest]
  have "\<exists>b' e' m'.
          retry_loop cfg serviceName methodName (scripted script) timer_fires a b lastErr m k
          = retry_loop cfg serviceName methodName (scripted script) timer_fires (a + 1) b' e' m' (Suc k)"
    using lt k sk rc
    by (subst retry_loop.simps) (auto simp add: scripted_at timer_fires_def Let_def)
  then obtain b' e' m' where step:
    "retry_loop cfg serviceName methodName (scripted script) timer_fires a b lastErr m k
     = retry_loop cfg serviceName methodName (scripted script) timer_fires (a + 1) b' e' m' (Suc k)"
    by blast
  show ?case unfolding step using IH [of b' e' m'] unfolding idx .
qed

text \<open>
  Claim C2. The wrapped call counts its invocations and answers from a script; the
  caller's context is not done during the waits (the timer fires), as in the test.
  \<^item> With \<^verbatim>\<open>MaxAttempts = 3\<close> and a wrapped call that fails with retryable codes on its
    first two invocations and succeeds on the third, the interceptor returns nil after
    exactly 3 invocations.
  \<^item> When the first invocation fails with an error whose code is not retryable, the
    interceptor returns that very error after exactly 1 invocation, whatever the context
    does.
  \<^item> When all \<^verbatim>\<open>MaxAttempts\<close> invocations fail with retryable codes, the interceptor
    returns the error of the last invocation as it is, after exactly \<^verbatim>\<open>MaxAttempts\<close>
    invocations.
\<close>

theorem retry_attempts:
  "(MaxAttempts cfg = 3
      \<and> script = Some (Status c1 msg1) # Some (Status c2 msg2) # None # rest
      \<and> retryable_loop (RetryCodes cfg) c1 \<and> retryable_loop (RetryCodes cfg) c2
    \<longrightarrow> fst (RetryInterceptor (Some cfg) serviceName methodName (scripted script) timer_fires m 0) = None
        \<and> snd (snd (RetryInterceptor (Some cfg) serviceName methodName (scripted script) timer_fires m 0))
            = 3)
   \<and> (1 \<le> sint (MaxAttempts cfg) \<and> script = Some e # rest
      \<and> \<not> retryable_loop (RetryCodes cfg) (fst (FromError e))
    \<longrightarrow> RetryInterceptor (Some cfg) serviceName methodName (scripted script) wait m 0 = (Some e, m, 1))
   \<and> (1 \<le> sint (MaxAttempts cfg)
      \<and> (\<forall>i < nat (sint (MaxAttempts cfg)).
            i < length script
            \<and> (\<exists>c msg. script ! i = Some (Status c msg) \<and> retryable_loop (RetryCodes cfg) c))
    \<longrightarrow> fst (RetryInterceptor (Some cfg) serviceName methodName (scripted script) timer_fires m 0)
          = script ! (nat (sint (MaxAttempts cfg)) - 1)
        \<and> snd (snd (RetryInterceptor (Some cfg) serviceName methodName (scripted script) timer_fires m 0))
            = nat (sint (MaxAttempts cfg)))"
proof (intro conjI impI)
  assume a: "MaxAttempts cfg = 3
      \<and> script = Some (Status c1 msg1) # Some (Status c2 msg2) # None # rest
      \<and> retryable_loop (RetryCodes cfg) c1 \<and> retryable_loop (RetryCodes cfg) c2"
  then have "\<exists>m'. RetryInterceptor (Some cfg) serviceName methodName (scripted script) timer_fires m 0
          = (None, m', 3)"
    by (simp add: RetryInterceptor_def retry_loop.simps scripted_def timer_fires_def Let_def)
  then show "fst (RetryInterceptor (Some cfg) serviceName methodName (scripted script) timer_fires m 0) = None"
    and "snd (snd (RetryInterceptor (Some cfg) serviceName methodName (scripted script) timer_fires m 0)) = 3"
    by auto
next
  assume "1 \<le> sint (MaxAttempts cfg) \<and> script = Some e # rest
      \<and> \<not> retryable_loop (RetryCodes cfg) (fst (FromError e))"
  then show "RetryInterceptor (Some cfg) serviceName methodName (scripted script) wait m 0 = (Some e, m, 1)"
    unfolding RetryInterceptor_def
    by (subst retry_loop.simps) (simp add: scripted_def)
next
  assume a: "1 \<le> sint (MaxAttempts cfg)
      \<and> (\<forall>i < nat (sint (MaxAttempts cfg)).
            i < length script
            \<and> (\<exists>c msg. script ! i = Some (Status c msg) \<and> retryable_loop (RetryCodes cfg) c))"
  then have le: "1 \<le> sint (MaxAttempts cfg)" by simp
  have all: "\<forall>i. 0 \<le> i \<longrightarrow> i \<le> 0 + nat (sint (MaxAttempts cfg) - 1) \<longrightarrow>
           i < length script \<and>
           (\<exists>c msg. script ! i = Some (Status c msg) \<and> retryable_loop (RetryCodes cfg) c)"
    using a by auto
  have n: "nat (sint (MaxAttempts cfg) - 1) = nat (sint (MaxAttempts cfg)) - 1"
    by simp
  note r = retry_loop_all_fail [OF le all, of serviceName methodName "InitialBackoff cfg" None m]
  show "fst (RetryInterceptor (Some cfg) serviceName methodName (scripted script) timer_fires m 0)
          = script ! (nat (sint (MaxAttempts cfg)) - 1)"
    using r by (simp add: RetryInterceptor_def n)
  show "snd (snd (RetryInterceptor (Some cfg) serviceName methodName (scripted script) timer_fires m 0))
            = nat (sint (MaxAttempts cfg))"
    using r le by (simp add: RetryInterceptor_def n)
qed

text \<open>
  The three cases of C2 on the configuration of \<^verbatim>\<open>TestRetryInterceptor\<close>.
\<close>

theorem retry_attempts_witness:
  "fst (RetryInterceptor (Some test_retry_cfg) ''test-service'' ''test''
      (scripted [Some test_retry_err, Some test_retry_err, None]) timer_fires None 0) = None
   \<and> snd (snd (RetryInterceptor (Some test_retry_cfg) ''test-service'' ''test''
      (scripted [Some test_retry_err, Some test_retry_err, None]) timer_fires None 0)) = 3
   \<and> RetryInterceptor (Some test_retry_cfg) ''test-service'' ''test''
      (scripted [Some (Status NotFound ''missing''), None]) timer_fires None 0
     = (Some (Status NotFound ''missing''), None, 1)
   \<and> fst (RetryInterceptor (Some test_retry_cfg) ''test-service'' ''test''
      (scripted [Some (Status Unavailable ''first''), Some (Status Unavailable ''second''),
                 Some (Status Unavailable ''third'')]) timer_fires None 0)
     = Some (Status Unavailable ''third'')
   \<and> snd (snd (RetryInterceptor (Some test_retry_cfg) ''test-service'' ''test''
      (scripted [Some (Status Unavailable ''first''), Some (Status Unavailable ''second''),
                 Some (Status Unavailable ''third'')]) timer_fires None 0)) = 3"
proof -
  note inst = retry_attempts [where cfg = test_retry_cfg and serviceName = "''test-service''"
      and methodName = "''test''" and m = None and wait = timer_fires
      and ?c1.0 = Unavailable and ?msg1.0 = "''retry''" and ?c2.0 = Unavailable
      and ?msg2.0 = "''retry''" and e = "Status NotFound ''missing''"]
  let ?s1 = "[Some test_retry_err, Some test_retry_err, None]"
  have 1: "fst (RetryInterceptor (Some test_retry_cfg) ''test-service'' ''test''
             (scripted ?s1) timer_fires None 0) = None
           \<and> snd (snd (RetryInterceptor (Some test_retry_cfg) ''test-service'' ''test''
             (scripted ?s1) timer_fires None 0)) = 3"
    using inst [where script = ?s1 and rest = "[]"]
    by (simp add: test_retry_cfg_def test_retry_err_def)
  have 2: "RetryInterceptor (Some test_retry_cfg) ''test-service'' ''test''
      (scripted [Some (Status NotFound ''missing''), None]) timer_fires None 0
     = (Some (Status NotFound ''missing''), None, 1)"
    using inst [where script = "[Some (Status NotFound ''missing''), None]" and rest = "[None]"]
    by (simp add: test_retry_cfg_def)
  let ?s3 = "[Some (Status Unavailable ''first''), Some (Status Unavailable ''second''),
                 Some (Status Unavailable ''third'')]"
  have h3: "1 \<le> sint (MaxAttempts test_retry_cfg)
      \<and> (\<forall>i < nat (sint (MaxAttempts test_retry_cfg)).
            i < length ?s3
            \<and> (\<exists>c msg. ?s3 ! i = Some (Status c msg)
                 \<and> retryable_loop (RetryCodes test_retry_cfg) c))"
    by (auto simp: test_retry_cfg_def less_Suc_eq numeral_3_eq_3)
  have 3: "fst (RetryInterceptor (Some test_retry_cfg) ''test-service'' ''test''
             (scripted ?s3) timer_fires None 0) = Some (Status Unavailable ''third'')
           \<and> snd (snd (RetryInterceptor (Some test_retry_cfg) ''test-service'' ''test''
             (scripted ?s3) timer_fires None 0)) = 3"
    using inst [where script = ?s3 and rest = "[]", THEN conjunct2, THEN conjunct2, THEN mp, OF h3]
    by (simp add: test_retry_cfg_def)
  show ?thesis using 1 2 3 by simp
qed

section \<open>Properties of the connection manager: closing\<close>

lemma events_emit [simp]: "events (emit e tr) = events tr @ [e]"
  by (simp add: emit_def)

lemma closeErr_emit [simp]: "closeErr (emit e tr) = closeErr tr"
  by (simp add: emit_def)

lemma connState_emit [simp]: "connState (emit e tr) = connState tr"
  by (simp add: emit_def)

lemma emitted_append: "events tr' = events tr @ es \<Longrightarrow> emitted tr tr' = es"
  by (simp add: emitted_def)

lemma closed_handles_append [simp]:
  "closed_handles (es @ fs) = closed_handles es @ closed_handles fs"
  by (induction es rule: closed_handles.induct) simp_all

lemma closed_handles_CloseConn [simp]: "closed_handles (map CloseConn hs) = hs"
  by (induction hs) simp_all

lemma Close_loop_spec:
  "Close_loop conns names lastErr tr =
     (last_error (lastErr # map (closeErr tr) (handles_of conns names)),
      tr\<lparr>connState := (\<lambda>c. if c \<in> set (handles_of conns names) then Shutdown else connState tr c),
         events := events tr @ map CloseConn (handles_of conns names)\<rparr>)"
proof (induction names arbitrary: lastErr tr)
  case Nil
  then show ?case by (simp add: handles_of_def List.map_filter_simps)
next
  case (Cons name names)
  show ?case
  proof (cases "fmlookup conns name")
    case None
    then show ?thesis using Cons.IH by (simp add: handles_of_def List.map_filter_simps)
  next
    case (Some conn)
    have h: "handles_of conns (name # names) = conn # handles_of conns names"
      using Some by (simp add: handles_of_def List.map_filter_simps)
    show ?thesis
      using Some
      apply (simp add: h conn_Close_def Cons.IH emit_def split: option.splits)
      apply (auto simp: fun_eq_iff)
      done
  qed
qed


lemma Close_spec:
  "Close names (cm, tr) =
     (last_error (map (closeErr tr) (handles_of (connections cm) names)),
      cm\<lparr>connections := fmempty, addresses := fmempty\<rparr>,
      tr\<lparr>connState := (\<lambda>c. if c \<in> set (handles_of (connections cm) names) then Shutdown
                             else connState tr c),
         events := events tr @ [Lock] @ map CloseConn (handles_of (connections cm) names)
                     @ [Unlock]\<rparr>)"
  by (auto simp: Close_def Close_loop_spec emit_def split: option.splits cong: if_cong)

lemma handles_of_all:
  assumes "set names = fmdom' conns"
  shows "fmran' conns \<subseteq> set (handles_of conns names)"
proof
  fix h assume "h \<in> fmran' conns"
  then obtain n where n: "fmlookup conns n = Some h" by (auto simp: fmran'_def ran_def)
  then have "n \<in> set names" using assms by (auto simp: fmdom'_def dom_def)
  then show "h \<in> set (handles_of conns names)"
    using n by (force simp: handles_of_def List.map_filter_def)
qed

text \<open>
  The claim C4 as the specification states it, that \<^verbatim>\<open>Close\<close> returns the first close
  error encountered, fails on a manager with two connections whose closes both fail,
  iterated in the order a, b: both closes are attempted, the first error encountered is
  that of a, and \<^verbatim>\<open>Close\<close> returns that of b.
\<close>

theorem Close_first_error_counterexample:
  "set [''a'', ''b''] = fmdom' (connections two_conn_manager)
   \<and> closed_handles (emitted failing_close_transport
        (snd (snd (Close [''a'', ''b''] (two_conn_manager, failing_close_transport))))) = [1, 2]
   \<and> first_error (map (closeErr failing_close_transport) [1, 2]) = Some (Plain ''first close failed'')
   \<and> fst (Close [''a'', ''b''] (two_conn_manager, failing_close_transport))
       = Some (Plain ''second close failed'')
   \<and> fst (Close [''a'', ''b''] (two_conn_manager, failing_close_transport))
       \<noteq> first_error (map (closeErr failing_close_transport) [1, 2])"
proof -
  have "set [''a'', ''b''] = fmdom' (connections two_conn_manager)"
    by (auto simp: two_conn_manager_def)
  then show ?thesis
    by (simp add: Close_def conn_Close_def emit_def emitted_def two_conn_manager_def
          failing_close_transport_def)
qed

text \<open>
  Claim C4, amended. \<^verbatim>\<open>Close\<close> calls \<^verbatim>\<open>Close\<close> on the handle of every key that it iterates,
  once each and in the order of the iteration, whether earlier closes have failed or
  not; so, as the iteration runs over all keys of \<^verbatim>\<open>cm.connections\<close>, every tracked handle
  is closed. The error returned is the last close error encountered in that order, and
  nil when no close fails.
\<close>

theorem Close_attempts_all_returns_last:
  "closed_handles (emitted tr (snd (snd (Close names (cm, tr)))))
     = handles_of (connections cm) names
   \<and> (set names = fmdom' (connections cm)
      \<longrightarrow> fmran' (connections cm)
            \<subseteq> set (closed_handles (emitted tr (snd (snd (Close names (cm, tr)))))))
   \<and> fst (Close names (cm, tr))
       = last_error (map (closeErr tr) (handles_of (connections cm) names))"
proof -
  have e: "emitted tr (snd (snd (Close names (cm, tr))))
             = [Lock] @ map CloseConn (handles_of (connections cm) names) @ [Unlock]"
    by (rule emitted_append) (simp add: Close_spec)
  show ?thesis
    unfolding e using handles_of_all [of names "connections cm"]
    by (simp add: Close_spec)
qed

theorem Close_attempts_all_returns_last_witness:
  "closed_handles (emitted failing_close_transport
        (snd (snd (Close [''b'', ''a''] (two_conn_manager, failing_close_transport))))) = [2, 1]
   \<and> fmran' (connections two_conn_manager)
       \<subseteq> set (closed_handles (emitted failing_close_transport
            (snd (snd (Close [''b'', ''a''] (two_conn_manager, failing_close_transport))))))
   \<and> fst (Close [''b'', ''a''] (two_conn_manager, failing_close_transport))
       = Some (Plain ''first close failed'')"
proof -
  have d: "set [''b'', ''a''] = fmdom' (connections two_conn_manager)"
    by (auto simp: two_conn_manager_def)
  have h: "handles_of (connections two_conn_manager) [''b'', ''a''] = [2, 1]"
    by (simp add: handles_of_def List.map_filter_simps two_conn_manager_def)
  have l: "last_error (map (closeErr failing_close_transport) [2, 1])
             = Some (Plain ''first close failed'')"
    by (simp add: failing_close_transport_def)
  note r = Close_attempts_all_returns_last
      [of failing_close_transport "[''b'', ''a'']" two_conn_manager, unfolded h l]
  show ?thesis
    using r d by blast
qed

text \<open>
  Claim C7. After \<^verbatim>\<open>Close\<close>, \<^verbatim>\<open>GetConnectionsCount\<close> returns 0, for every manager, every
  iteration order and every transport, that is, whichever closes fail.
\<close>

theorem Close_count_zero:
  "fst (GetConnectionsCount (snd (Close names (cm, tr)))) = 0"
  by (simp add: Close_spec GetConnectionsCount_def len_def)

section \<open>Properties of the connection manager: acquiring\<close>

text \<open>
  Every tracked connection belongs to a registered service: this holds for a new manager
  and is kept by every operation.
\<close>

lemma tracked_registered_New:
  "NewConnectionManager cfg m = Inr cm \<Longrightarrow> tracked_registered cm"
  by (auto simp: NewConnectionManager_def tracked_registered_def Let_def split: option.splits)

lemma tracked_registered_dial:
  assumes "tracked_registered cm" and "registered cm serviceName"
  shows "tracked_registered (fst (snd (GetConnection_dial serviceName address (cm, tr))))"
  using assms
  by (auto simp: GetConnection_dial_def tracked_registered_def registered_def Let_def
           split: prod.splits sum.splits option.splits if_splits)

lemma tracked_registered_drop:
  "tracked_registered cm \<Longrightarrow>
   tracked_registered (cm\<lparr>connections := fmdrop serviceName (connections cm)\<rparr>)"
  by (auto simp: tracked_registered_def registered_def)

lemma registered_drop:
  "registered (cm\<lparr>connections := c\<rparr>) serviceName = registered cm serviceName"
  by (simp add: registered_def)

lemma tracked_registered_locked:
  assumes "tracked_registered cm" and "registered cm serviceName"
  shows "tracked_registered (fst (snd (GetConnection_locked serviceName address (cm, tr))))"
  using assms
  by (simp add: GetConnection_locked_def Let_def tracked_registered_dial tracked_registered_drop
        registered_drop split: option.splits)

lemma tracked_registered_store:
  "tracked_registered cm \<Longrightarrow> address \<noteq> [] \<Longrightarrow>
   tracked_registered (cm\<lparr>addresses := fmupd serviceName address (addresses cm)\<rparr>)
   \<and> registered (cm\<lparr>addresses := fmupd serviceName address (addresses cm)\<rparr>) serviceName"
  by (auto simp: tracked_registered_def registered_def)

lemma tracked_registered_GetConnection:
  assumes "tracked_registered cm"
  shows "tracked_registered (fst (snd (GetConnection serviceName address (cm, tr))))"
proof (cases "address = []")
  case True
  show ?thesis
  proof (cases "registered cm serviceName")
    case r: True
    then show ?thesis
      using assms True
      by (auto simp: GetConnection_def Let_def tracked_registered_locked registered_def
               split: option.splits)
  next
    case False
    then show ?thesis
      using assms True
      by (auto simp: GetConnection_def Let_def registered_def split: option.splits)
  qed
next
  case False
  then show ?thesis
    using tracked_registered_store [OF assms False, of serviceName]
    by (auto simp: GetConnection_def Let_def tracked_registered_locked split: option.splits)
qed

lemma tracked_registered_CloseConnection:
  "tracked_registered cm \<Longrightarrow> tracked_registered (fst (snd (CloseConnection serviceName (cm, tr))))"
  by (auto simp: CloseConnection_def tracked_registered_def registered_def Let_def
           split: prod.splits option.splits)

lemma tracked_registered_Close:
  "tracked_registered (fst (snd (Close names (cm, tr))))"
  by (auto simp: Close_def tracked_registered_def split: prod.splits)

lemma tracked_registered_HealthCheck:
  "tracked_registered cm \<Longrightarrow>
   tracked_registered (fst (snd (HealthCheck anames cnames (cm, tr))))"
  by (auto simp: HealthCheck_def tracked_registered_def registered_def Let_def split: prod.splits)

lemma tracked_is_registered:
  "tracked_registered cm \<Longrightarrow> fmlookup (connections cm) serviceName = Some conn
   \<Longrightarrow> registered cm serviceName"
  by (auto simp: tracked_registered_def dest: fmdom'I)

lemma dialled_append [simp]: "dialled (es @ fs) = dialled es @ dialled fs"
  by (induction es rule: dialled.induct) simp_all

text \<open>One call for a service whose handle is usable: the fast path.\<close>

lemma GetConnection_usable:
  assumes "fmlookup (connections cm) serviceName = Some conn"
    and "connState tr conn = Ready \<or> connState tr conn = Idle"
    and "address \<noteq> [] \<or> registered cm serviceName"
  shows "GetConnection serviceName address (cm, tr) =
           (Inr conn,
            (if address \<noteq> [] then cm\<lparr>addresses := fmupd serviceName address (addresses cm)\<rparr>
             else cm),
            tr\<lparr>events := events tr @ [Lock, Unlock, RLock, RUnlock]\<rparr>)"
  using assms
  by (auto simp: GetConnection_def Let_def registered_def usable_def conn_GetState_def emit_def
           split: option.splits)

lemma GetConnection_repeat_usable:
  assumes "fmlookup (connections cm) serviceName = Some conn"
    and "connState tr conn = Ready \<or> connState tr conn = Idle"
    and "registered cm serviceName \<or> (as \<noteq> [] \<and> hd as \<noteq> [])"
  shows "\<exists>cm' es.
           GetConnection_repeat serviceName as (cm, tr)
             = (replicate (length as) (Inr conn), cm', tr\<lparr>events := events tr @ es\<rparr>)
           \<and> connections cm' = connections cm \<and> dialled es = [] \<and> closed_handles es = []"
  using assms
proof (induction as arbitrary: cm tr)
  case Nil
  show ?case by (intro exI [of _ cm] exI [of _ "[]"]) simp
next
  case (Cons a as)
  let ?cm1 = "if a \<noteq> [] then cm\<lparr>addresses := fmupd serviceName a (addresses cm)\<rparr> else cm"
  let ?tr1 = "tr\<lparr>events := events tr @ [Lock, Unlock, RLock, RUnlock]\<rparr>"
  have av: "a \<noteq> [] \<or> registered cm serviceName" using Cons.prems(3) by auto
  have step: "GetConnection serviceName a (cm, tr) = (Inr conn, ?cm1, ?tr1)"
    by (rule GetConnection_usable [OF Cons.prems(1,2) av])
  have c1: "fmlookup (connections ?cm1) serviceName = Some conn" using Cons.prems(1) by simp
  have s1: "connState ?tr1 conn = Ready \<or> connState ?tr1 conn = Idle" using Cons.prems(2) by simp
  have r1: "registered ?cm1 serviceName \<or> (as \<noteq> [] \<and> hd as \<noteq> [])"
    using av by (auto simp: registered_def)
  from Cons.IH [OF c1 s1 r1] obtain cm' es where
    rec: "GetConnection_repeat serviceName as (?cm1, ?tr1)
             = (replicate (length as) (Inr conn), cm', ?tr1\<lparr>events := events ?tr1 @ es\<rparr>)"
    and k: "connections cm' = connections ?cm1" "dialled es = []" "closed_handles es = []"
    by blast
  have "GetConnection_repeat serviceName (a # as) (cm, tr)
          = (replicate (length (a # as)) (Inr conn), cm',
             tr\<lparr>events := events tr @ ([Lock, Unlock, RLock, RUnlock] @ es)\<rparr>)"
    using step rec by simp
  moreover have "connections cm' = connections cm" using k(1) by simp
  moreover have "dialled ([Lock, Unlock, RLock, RUnlock] @ es) = []" using k(2) by simp
  moreover have "closed_handles ([Lock, Unlock, RLock, RUnlock] @ es) = []" using k(3) by simp
  ultimately show ?case by blast
qed

text \<open>
  Claim C5. For a service with a tracked handle whose state is \<open>Ready\<close> or \<open>Idle\<close>, any
  number of successive calls of \<^verbatim>\<open>GetConnection\<close> for that service return that same handle
  each time, leave \<^verbatim>\<open>cm.connections\<close> as it was, and neither dial nor close anything; the
  states of the transport are left as they were, so the handle stays usable. The service
  has an address: it is registered (as every service with a tracked handle is, see
  \<open>tracked_is_registered\<close>), or the first call supplies one.
\<close>

theorem GetConnection_idempotent:
  assumes "fmlookup (connections cm) serviceName = Some conn"
    and "connState tr conn = Ready \<or> connState tr conn = Idle"
    and "registered cm serviceName \<or> (as \<noteq> [] \<and> hd as \<noteq> [])"
  shows "fst (GetConnection_repeat serviceName as (cm, tr)) = replicate (length as) (Inr conn)
         \<and> connections (fst (snd (GetConnection_repeat serviceName as (cm, tr)))) = connections cm
         \<and> dialled (emitted tr (snd (snd (GetConnection_repeat serviceName as (cm, tr))))) = []
         \<and> closed_handles (emitted tr (snd (snd (GetConnection_repeat serviceName as (cm, tr))))) = []
         \<and> connState (snd (snd (GetConnection_repeat serviceName as (cm, tr)))) = connState tr"
proof -
  from GetConnection_repeat_usable [OF assms] obtain cm' es where
    r: "GetConnection_repeat serviceName as (cm, tr)
             = (replicate (length as) (Inr conn), cm', tr\<lparr>events := events tr @ es\<rparr>)"
    and k: "connections cm' = connections cm" "dialled es = []" "closed_handles es = []"
    by blast
  have e: "emitted tr (tr\<lparr>events := events tr @ es\<rparr>) = es"
    by (rule emitted_append) simp
  show ?thesis using k by (simp add: r e)
qed

text \<open>
  C5 on the manager with two connections: three calls for service a (handle 1, ready),
  with and without an address, and two calls without an address for service b (handle 2,
  idle).
\<close>

theorem GetConnection_idempotent_witness:
  "fst (GetConnection_repeat ''a'' [''hosta:50051'', [], ''hosta:50051'']
          (two_conn_manager, failing_close_transport)) = [Inr 1, Inr 1, Inr 1]
   \<and> dialled (emitted failing_close_transport
         (snd (snd (GetConnection_repeat ''a'' [''hosta:50051'', [], ''hosta:50051'']
            (two_conn_manager, failing_close_transport))))) = []
   \<and> fst (GetConnection_repeat ''b'' [[], []] (two_conn_manager, failing_close_transport))
       = [Inr 2, Inr 2]"
proof -
  have 1: "fmlookup (connections two_conn_manager) ''a'' = Some 1"
    and 2: "fmlookup (connections two_conn_manager) ''b'' = Some 2"
    and r: "registered two_conn_manager ''b''"
    by (simp_all add: two_conn_manager_def registered_def)
  have s1: "connState failing_close_transport 1 = Ready \<or> connState failing_close_transport 1 = Idle"
    and s2: "connState failing_close_transport 2 = Ready \<or> connState failing_close_transport 2 = Idle"
    by (simp_all add: failing_close_transport_def)
  show ?thesis
    using GetConnection_idempotent [OF 1 s1, of "[''hosta:50051'', [], ''hosta:50051'']"]
      GetConnection_idempotent [OF 2 s2, of "[[], []]"] r
    by (simp add: numeral_3_eq_3 numeral_2_eq_2)
qed

section \<open>Properties of the health check\<close>

lemma HealthCheck_addresses_lookup:
  assumes "set names \<subseteq> fmdom' (addresses cm)"
  shows "fmlookup (fst (HealthCheck_addresses cm tr names (result, m))) name =
           (if name \<in> set names then health_of cm tr name else fmlookup result name)"
  using assms
proof (induction names arbitrary: result m)
  case Nil
  then show ?case by simp
next
  case (Cons n names)
  then have sub: "set names \<subseteq> fmdom' (addresses cm)" and n: "n \<in> fmdom' (addresses cm)"
    by auto
  note IH = Cons.IH [OF sub]
  show ?case
  proof (cases "fmlookup (connections cm) n")
    case None
    then show ?thesis using n by (auto simp: IH health_of_def)
  next
    case (Some conn)
    then show ?thesis by (auto simp: IH health_of_def conn_GetState_def Let_def)
  qed
qed


lemma HealthCheck_connections_lookup:
  "fmlookup (HealthCheck_connections cm tr names result) name =
     (if name \<in> set names \<and> fmlookup (connections cm) name \<noteq> None
         \<and> fmlookup (addresses cm) name = None
      then health_of cm tr name else fmlookup result name)"
proof (induction names arbitrary: result)
  case Nil
  then show ?case by simp
next
  case (Cons n names)
  show ?case
  proof (cases "fmlookup (connections cm) n")
    case None
    then show ?thesis by (auto simp: Cons.IH)
  next
    case (Some conn)
    show ?thesis
    proof (cases "fmlookup (addresses cm) n")
      case None
      then show ?thesis
        using Some by (auto simp: Cons.IH health_of_def conn_GetState_def Let_def)
    next
      case a: (Some addr)
      then show ?thesis using Some by (auto simp: Cons.IH)
    qed
  qed
qed

text \<open>
  Claim C8. \<^verbatim>\<open>HealthCheck\<close> has no error result: it is a total function into the map of
  reports. When its two loops run over the keys of \<^verbatim>\<open>cm.addresses\<close> and of
  \<^verbatim>\<open>cm.connections\<close>, in any order, the entry of every service name is the report
  \<open>health_of\<close>: for a name with a handle, registered or not, the name of the handle's
  state, healthy exactly when the state is \<open>Ready\<close>; for a registered name without a
  handle, \<^verbatim>\<open>NotConnected\<close> and unhealthy; for any other name, no entry.
\<close>

theorem HealthCheck_reports:
  assumes "set anames = fmdom' (addresses cm)" and "set cnames = fmdom' (connections cm)"
  shows "fmlookup (fst (HealthCheck anames cnames (cm, tr))) name = health_of cm tr name"
proof -
  obtain result m where
    a: "HealthCheck_addresses cm (emit RLock tr) anames (fmempty, metrics cm) = (result, m)"
    by (cases "HealthCheck_addresses cm (emit RLock tr) anames (fmempty, metrics cm)") auto
  have h: "health_of cm (emit RLock tr) name = health_of cm tr name"
    by (simp add: health_of_def split: option.splits)
  have sub: "set anames \<subseteq> fmdom' (addresses cm)" using assms(1) by simp
  have r: "fmlookup result name = (if name \<in> set anames then health_of cm tr name else None)"
    using HealthCheck_addresses_lookup [OF sub, of "emit RLock tr" fmempty "metrics cm" name] a h
    by simp
  have res: "fst (HealthCheck anames cnames (cm, tr))
               = HealthCheck_connections cm (emit RLock tr) cnames result"
    using a by (simp add: HealthCheck_def Let_def)
  show ?thesis
  proof (cases "fmlookup (connections cm) name")
    case None
    then show ?thesis
      unfolding res HealthCheck_connections_lookup r using assms(1)
      by (simp add: health_of_def)
  next
    case (Some conn)
    then have c: "name \<in> set cnames" using assms(2) by (simp add: fmdom'I)
    show ?thesis
    proof (cases "fmlookup (addresses cm) name")
      case None
      then show ?thesis
        unfolding res HealthCheck_connections_lookup using Some c h by simp
    next
      case a2: (Some addr)
      then have "name \<in> set anames" using assms(1) by (simp add: fmdom'I)
      then show ?thesis
        unfolding res HealthCheck_connections_lookup r using a2 by simp
    qed
  qed
qed

text \<open>
  C8 on a manager with a ready connection a, an idle connection b and a registered
  service c that has no connection.
\<close>

theorem HealthCheck_reports_witness:
  "fmlookup (fst (HealthCheck [''c'', ''b'', ''a''] [''a'', ''b'']
       (three_service_manager, failing_close_transport))) ''c''
     = Some \<lparr> State = ''NotConnected'', Healthy = False,
              Error = ''connection not established yet'' \<rparr>
   \<and> fmlookup (fst (HealthCheck [''c'', ''b'', ''a''] [''a'', ''b'']
       (three_service_manager, failing_close_transport))) ''a''
     = Some \<lparr> State = ''READY'', Healthy = True, Error = [] \<rparr>
   \<and> fmlookup (fst (HealthCheck [''c'', ''b'', ''a''] [''a'', ''b'']
       (three_service_manager, failing_close_transport))) ''b''
     = Some \<lparr> State = ''IDLE'', Healthy = False, Error = [] \<rparr>"
proof -
  have d1: "set [''c'', ''b'', ''a''] = fmdom' (addresses three_service_manager)"
    by (auto simp: three_service_manager_def two_conn_manager_def)
  have d2: "set [''a'', ''b''] = fmdom' (connections three_service_manager)"
    by (auto simp: three_service_manager_def two_conn_manager_def)
  note r = HealthCheck_reports [OF d1 d2, of failing_close_transport]
  have c: "health_of three_service_manager failing_close_transport ''c''
             = Some \<lparr> State = ''NotConnected'', Healthy = False,
                      Error = ''connection not established yet'' \<rparr>"
    by (simp add: health_of_def three_service_manager_def two_conn_manager_def)
  have a: "health_of three_service_manager failing_close_transport ''a''
             = Some \<lparr> State = ''READY'', Healthy = True, Error = [] \<rparr>"
    by (simp add: health_of_def three_service_manager_def two_conn_manager_def
          failing_close_transport_def)
  have b: "health_of three_service_manager failing_close_transport ''b''
             = Some \<lparr> State = ''IDLE'', Healthy = False, Error = [] \<rparr>"
    by (simp add: health_of_def three_service_manager_def two_conn_manager_def
          failing_close_transport_def)
  show ?thesis
    using r [of "''c''"] r [of "''a''"] r [of "''b''"] by (simp only: a b c)
qed

section \<open>Properties of the locking in \<^verbatim>\<open>GetConnection\<close>\<close>






end
